theory Spec2Isabelle
  imports Main "HOL-Library.AList"
begin

section \<open>Data model\<close>

text \<open>
  The mock server (\<^verbatim>\<open>src/models/server.js\<close>) keeps one JavaScript \<^verbatim>\<open>Map\<close> from ports
  to mock entries, and each entry keeps a \<^verbatim>\<open>Map\<close> from interaction ids to interaction
  objects. A JavaScript \<^verbatim>\<open>Map\<close> iterates in insertion order, \<^verbatim>\<open>set\<close> on a present key
  replaces the value in place and \<^verbatim>\<open>set\<close> on a new key appends: that is an association
  list under \<^const>\<open>AList.update\<close> and \<^const>\<open>AList.delete\<close>.

  Interaction objects are shared between the orchestrator (\<^verbatim>\<open>Spec.interactions\<close>) and the
  server's registries, and the request handler mutates them in place
  (\<^verbatim>\<open>interaction.exercised = true\<close>). Registries therefore hold references, and the
  objects live in an explicit store.
\<close>

type_synonym port = nat
type_synonym ident = string
type_synonym addr = nat

text \<open>A JavaScript object with string values (a query string or a header set).\<close>

type_synonym fields = "(string \<times> string) list"

datatype json =
    JNull
  | JBool bool
  | JNum int
  | JStr string
  | JArr "json list"
  | JObj "(string \<times> json) list"

type_synonym jobject = "(string \<times> json) list"

text \<open>
  \<^verbatim>\<open>withRequest: {method, path, query?, headers?, body?}\<close> (the member \<^verbatim>\<open>method\<close> is the
  field \<open>http_method\<close>). The JSDoc of
  \<^verbatim>\<open>Spec.addInteraction\<close> types the three optional members as objects; an absent member
  is \<^const>\<open>None\<close>. A JavaScript object is truthy, so the handler's tests
  \<^verbatim>\<open>if (interaction.withRequest.query)\<close> hold exactly for \<^const>\<open>Some\<close>.
\<close>

record with_request =
  http_method :: string
  path :: string
  query :: "fields option"
  headers :: "fields option"
  body :: "jobject option"

text \<open>\<^verbatim>\<open>willRespondWith: {status, headers?, body?}\<close>.\<close>

record will_respond_with =
  status :: nat
  resp_headers :: "fields option"
  resp_body :: "json option"

record interaction =
  iid :: ident
  port :: port
  withRequest :: with_request
  willRespondWith :: will_respond_with
  exercised :: bool

text \<open>
  One entry of \<^verbatim>\<open>mockMap\<close>: \<^verbatim>\<open>{app, server, running, interactions}\<close>. The \<^verbatim>\<open>app\<close> and
  \<^verbatim>\<open>server\<close> members are handles of the HTTP framework; the listener they stand for is
  open exactly while \<^verbatim>\<open>running\<close> is true (set in the \<^verbatim>\<open>listen\<close> callback, cleared in the
  \<^verbatim>\<open>close\<close> callback).
\<close>

record mock =
  running :: bool
  interactions :: "(ident \<times> addr) list"

text \<open>What the express request object gives the handler.\<close>

record request =
  req_method :: string
  req_path :: string
  req_query :: fields
  req_headers :: fields
  req_body :: json

text \<open>The calls the handler makes on the framework's response object \<^verbatim>\<open>res\<close>.\<close>

datatype res_call =
    ResSet "fields option"
  | ResStatus nat
  | ResSend "json option"

text \<open>
  What can be thrown. \<open>HeadersSent\<close> is the framework's \<^verbatim>\<open>ERR_HTTP_HEADERS_SENT\<close>
  ("Cannot set headers after they are sent to the client").
\<close>

datatype error =
    BindError
  | TypeError
  | HeadersSent
  | UnexercisedInteraction ident
  | AssertionError string

text \<open>
  The response object belongs to the HTTP framework, which is not part of the
  repository. A call on it either returns or throws, and which of the two depends on the
  calls that have returned on the same object before. The handler is parametric in this
  behaviour: a framework maps the calls that have returned so far and the next call to
  the error the next call throws, if it throws.
\<close>

type_synonym framework = "res_call list \<Rightarrow> res_call \<Rightarrow> error option"

text \<open>
  The outbound request the builder fills in (\<^verbatim>\<open>Spec._request\<close>, initially \<^verbatim>\<open>{}\<close>), and the
  two entry points of the HTTP client the orchestrator calls.
\<close>

record out_request =
  url :: "string option"
  out_method :: "string option"
  qs :: "fields option"
  out_json :: "json option"
  out_headers :: "fields option"
  resolveWithFullResponse :: bool

datatype rp_call =
    RpGet out_request
  | RpPost out_request

text \<open>
  What the awaited call settles to: the full response, or the error it was rejected
  with (its message and the \<^verbatim>\<open>body\<close> member the error object carries, if any).
\<close>

record http_response =
  statusCode :: nat
  res_headers :: fields
  res_body :: "json option"

datatype rejection = Rejection string "json option"

text \<open>The calls the orchestrator makes on its collaborators, in the order it makes them.\<close>

datatype event =
    ServerAdd ident addr
  | Fetched rp_call
  | StoreAdd addr
  | ServerRemove port ident
  | ValidateInteractions
  | Validate

record world =
  mockMap :: "(port \<times> mock) list"
  heap :: "addr \<Rightarrow> interaction"
  store :: "addr list"
  events :: "event list"

text \<open>\<^verbatim>\<open>new Server()\<close>: an empty \<^verbatim>\<open>mockMap\<close>.\<close>

definition new_Server :: "(addr \<Rightarrow> interaction) \<Rightarrow> world" where
  "new_Server h = \<lparr>mockMap = [], heap = h, store = [], events = []\<rparr>"

section \<open>The mock server\<close>

text \<open>
  \<^verbatim>\<open>Server.start(port)\<close>. The flag \<open>bound\<close> says whether \<^verbatim>\<open>app.listen\<close> reaches its
  callback, where the entry is stored; when the port cannot be bound the callback never
  runs, the map is left as it was, and the result is \<^const>\<open>BindError\<close>.
\<close>

definition start :: "port \<Rightarrow> bool \<Rightarrow> world \<Rightarrow> error + world" where
  "start p bound w =
     (if (case map_of (mockMap w) p of None \<Rightarrow> False | Some m \<Rightarrow> running m)
      then Inr w
      else if bound
        then Inr (w\<lparr>mockMap := AList.update p \<lparr>running = True, interactions = []\<rparr> (mockMap w)\<rparr>)
        else Inl BindError)"

text \<open>\<^verbatim>\<open>Server.stop(port)\<close>.\<close>

definition stop :: "port \<Rightarrow> world \<Rightarrow> world" where
  "stop p w =
     (case map_of (mockMap w) p of
        Some app \<Rightarrow>
          if running app
          then w\<lparr>mockMap := AList.update p (app\<lparr>running := False\<rparr>) (mockMap w)\<rparr>
          else w
      | None \<Rightarrow> w)"

text \<open>\<^verbatim>\<open>Server.addInteraction(id, interaction)\<close>; the object is passed by reference.\<close>

definition addInteraction :: "ident \<Rightarrow> addr \<Rightarrow> world \<Rightarrow> world" where
  "addInteraction i a w =
     (let p = port (heap w a) in
      case map_of (mockMap w) p of
        Some m \<Rightarrow>
          w\<lparr>mockMap := AList.update p (m\<lparr>interactions := AList.update i a (interactions m)\<rparr>) (mockMap w)\<rparr>
      | None \<Rightarrow> w)"

text \<open>\<^verbatim>\<open>Server.removeInteraction(port, id)\<close>.\<close>

definition removeInteraction :: "port \<Rightarrow> ident \<Rightarrow> world \<Rightarrow> world" where
  "removeInteraction p i w =
     (case map_of (mockMap w) p of
        Some m \<Rightarrow>
          w\<lparr>mockMap := AList.update p (m\<lparr>interactions := AList.delete i (interactions m)\<rparr>) (mockMap w)\<rparr>
      | None \<Rightarrow> w)"

text \<open>\<^verbatim>\<open>Server.removeInteractions(port)\<close>.\<close>

definition removeInteractions :: "port \<Rightarrow> world \<Rightarrow> world" where
  "removeInteractions p w =
     (case map_of (mockMap w) p of
        Some m \<Rightarrow> w\<lparr>mockMap := AList.update p (m\<lparr>interactions := []\<rparr>) (mockMap w)\<rparr>
      | None \<Rightarrow> w)"

text \<open>\<^verbatim>\<open>Server.removeAllInteractions()\<close>.\<close>

definition removeAllInteractions :: "world \<Rightarrow> world" where
  "removeAllInteractions w =
     w\<lparr>mockMap := map (\<lambda>(p, m). (p, m\<lparr>interactions := []\<rparr>)) (mockMap w)\<rparr>"

section \<open>The request handler\<close>

text \<open>
  \<^verbatim>\<open>helper.validateQuery\<close>, \<^verbatim>\<open>helper.validateHeaders\<close> and \<^verbatim>\<open>helper.validateBody\<close> live
  in \<^verbatim>\<open>src/helpers/helper.js\<close>; the handler is parametric in them. Each takes the
  request's value first and the declared one second.
\<close>

record helper =
  validateQuery :: "fields \<Rightarrow> fields \<Rightarrow> bool"
  validateHeaders :: "fields \<Rightarrow> fields \<Rightarrow> bool"
  validateBody :: "json \<Rightarrow> jobject \<Rightarrow> bool"

text \<open>Lines 25 to 39 of \<^verbatim>\<open>server.js\<close>: the five flags and their conjunction.\<close>

definition matches :: "helper \<Rightarrow> request \<Rightarrow> interaction \<Rightarrow> bool" where
  "matches hp req i =
     (let isValidMethod = (http_method (withRequest i) = req_method req);
          isValidPath = (path (withRequest i) = req_path req);
          isValidQuery =
            (case query (withRequest i) of
               None \<Rightarrow> True
             | Some q \<Rightarrow> validateQuery hp (req_query req) q);
          isValidHeaders =
            (case headers (withRequest i) of
               None \<Rightarrow> True
             | Some hs \<Rightarrow> validateHeaders hp (req_headers req) hs);
          isValidBody =
            (case body (withRequest i) of
               None \<Rightarrow> True
             | Some b \<Rightarrow> validateBody hp (req_body req) b)
      in isValidMethod \<and> isValidPath \<and> isValidQuery \<and> isValidHeaders \<and> isValidBody)"

text \<open>Lines 42 to 44: the three calls on \<^verbatim>\<open>res\<close> for a matching interaction.\<close>

definition respond :: "interaction \<Rightarrow> res_call list" where
  "respond i =
     [ResSet (resp_headers (willRespondWith i)),
      ResStatus (status (willRespondWith i)),
      ResSend (resp_body (willRespondWith i))]"

text \<open>
  A sequence of calls on \<^verbatim>\<open>res\<close>, one after the other. The handler has no
  \<^verbatim>\<open>try\<close>/\<^verbatim>\<open>catch\<close>: the first call that throws ends the sequence, and the calls after it are
  not made. The result is the error thrown, if any, and the calls that have returned.
\<close>

fun issue :: "framework \<Rightarrow> res_call list \<Rightarrow> res_call list \<Rightarrow> error option \<times> res_call list" where
  "issue fw [] res = (None, res)"
| "issue fw (c # cs) res =
     (case fw res c of
        Some e \<Rightarrow> (Some e, res)
      | None \<Rightarrow> issue fw cs (res @ [c]))"

text \<open>
  The \<^verbatim>\<open>for (let [id, interaction] of interactions)\<close> loop. The accumulator is
  \<^verbatim>\<open>interactionExercised\<close>, the calls that have returned on \<^verbatim>\<open>res\<close> so far, and the object
  store. For a matching entry the flag and \<^verbatim>\<open>interaction.exercised\<close> are set first (lines
  40 and 41) and the three calls follow; a call that throws ends the loop, and what was
  assigned before it stays assigned. The result carries the error thrown, if any.
\<close>

fun scan ::
  "helper \<Rightarrow> framework \<Rightarrow> request \<Rightarrow> (ident \<times> addr) list \<Rightarrow>
   bool \<times> res_call list \<times> (addr \<Rightarrow> interaction) \<Rightarrow>
   error option \<times> bool \<times> res_call list \<times> (addr \<Rightarrow> interaction)" where
  "scan hp fw req [] acc = (None, acc)"
| "scan hp fw req ((i, a) # rest) (interactionExercised, res, h) =
     (if matches hp req (h a)
      then (case issue fw (respond (h a)) res of
              (Some e, res') \<Rightarrow> (Some e, True, res', h(a := (h a)\<lparr>exercised := True\<rparr>))
            | (None, res') \<Rightarrow>
                scan hp fw req rest (True, res', h(a := (h a)\<lparr>exercised := True\<rparr>)))
      else scan hp fw req rest (interactionExercised, res, h))"

definition not_found :: "res_call list" where
  "not_found = [ResStatus 404, ResSend (Some (JStr ''Interaction Not Found''))]"

text \<open>
  The handler \<^verbatim>\<open>app.all('/*', (req, res) => ...)\<close> of the app started for port \<open>p\<close>
  (\<^verbatim>\<open>req.app.port\<close>). Reading \<^verbatim>\<open>mock.interactions\<close> of a missing entry is a
  \<^verbatim>\<open>TypeError\<close>. The result is the error the handler throws, if any, the calls that have
  returned on \<^verbatim>\<open>res\<close>, and the world as the handler leaves it.
\<close>

definition dispatch ::
  "helper \<Rightarrow> framework \<Rightarrow> port \<Rightarrow> request \<Rightarrow> world \<Rightarrow> error option \<times> res_call list \<times> world" where
  "dispatch hp fw p req w =
     (case map_of (mockMap w) p of
        None \<Rightarrow> (Some TypeError, [], w)
      | Some m \<Rightarrow>
          (case scan hp fw req (interactions m) (False, [], heap w) of
             (Some e, interactionExercised, res, h) \<Rightarrow> (Some e, res, w\<lparr>heap := h\<rparr>)
           | (None, interactionExercised, res, h) \<Rightarrow>
               if \<not> interactionExercised
               then (case issue fw not_found res of (e, res') \<Rightarrow> (e, res', w\<lparr>heap := h\<rparr>))
               else (None, res, w\<lparr>heap := h\<rparr>)))"

text \<open>
  The behaviour of the response object of express, the framework \<^verbatim>\<open>server.js\<close> requires
  (its code is not part of the repository): \<^verbatim>\<open>res.send\<close> writes the response and ends it;
  from then on setting a header throws \<^verbatim>\<open>ERR_HTTP_HEADERS_SENT\<close>. \<^verbatim>\<open>res.set\<close> sets a header
  for each key of its argument, and \<^verbatim>\<open>res.send\<close> sets the content headers of the body it is
  given; \<^verbatim>\<open>res.status\<close> only assigns the status code.
\<close>

definition sent :: "res_call list \<Rightarrow> bool" where
  "sent res = list_ex (\<lambda>c. case c of ResSend b \<Rightarrow> True | _ \<Rightarrow> False) res"

definition express :: framework where
  "express res c =
     (case c of
        ResSet (Some (kv # kvs)) \<Rightarrow> if sent res then Some HeadersSent else None
      | ResSend (Some b) \<Rightarrow> if sent res then Some HeadersSent else None
      | _ \<Rightarrow> None)"

text \<open>
  What the client receives, under express: the status, headers and body the response
  has at the first \<^verbatim>\<open>res.send\<close>, that is, what the calls before it have put there.
\<close>

fun delivered :: "res_call list \<Rightarrow> http_response \<Rightarrow> http_response option" where
  "delivered [] r = None"
| "delivered (ResSet None # cs) r = delivered cs r"
| "delivered (ResSet (Some kv) # cs) r =
     delivered cs (r\<lparr>res_headers := fold (\<lambda>x. AList.update (fst x) (snd x)) kv (res_headers r)\<rparr>)"
| "delivered (ResStatus n # cs) r = delivered cs (r\<lparr>statusCode := n\<rparr>)"
| "delivered (ResSend b # cs) r = Some (r\<lparr>res_body := b\<rparr>)"

definition fresh :: http_response where
  "fresh = \<lparr>statusCode = 200, res_headers = [], res_body = None\<rparr>"

text \<open>
  Modelled from the spec: \<^verbatim>\<open>helper.validateQuery\<close> and \<^verbatim>\<open>helper.validateHeaders\<close>
  (\<^verbatim>\<open>src/helpers/helper.js\<close> is missing). Section 4.2: every declared key must be present
  in the request with an equal value; keys the request carries beyond them are not
  checked.
\<close>

definition subset_match :: "fields \<Rightarrow> fields \<Rightarrow> bool" where
  "subset_match actual expected =
     list_all (\<lambda>k. map_of actual k = map_of expected k) (map fst expected)"

definition spec_helper :: "(json \<Rightarrow> jobject \<Rightarrow> bool) \<Rightarrow> helper" where
  "spec_helper vb =
     \<lparr>validateQuery = subset_match, validateHeaders = subset_match, validateBody = vb\<rparr>"

text \<open>
  Modelled from the spec: the constructor of \<^verbatim>\<open>Interaction\<close>
  (\<^verbatim>\<open>src/models/interaction.js\<close> is missing). Section 3: \<^verbatim>\<open>exercised\<close> is initially false.
\<close>

definition new_Interaction ::
  "ident \<Rightarrow> port \<Rightarrow> with_request \<Rightarrow> will_respond_with \<Rightarrow> interaction" where
  "new_Interaction i p rq rs =
     \<lparr>iid = i, port = p, withRequest = rq, willRespondWith = rs, exercised = False\<rparr>"

section \<open>The orchestrator\<close>

text \<open>
  The class \<^verbatim>\<open>Spec\<close>: its interactions (a \<^verbatim>\<open>Map\<close> from id to object), the
  outbound request, and the captured response with the \<^verbatim>\<open>json\<close> member \<^verbatim>\<open>toss\<close> adds to
  it. The response slot holds whatever the awaited call settled to.
\<close>

record spec =
  spec_id :: ident
  spec_interactions :: "(ident \<times> addr) list"
  spec_request :: out_request
  spec_response :: "(rejection + http_response) option"
  spec_json :: "json option"

definition new_Spec :: "ident \<Rightarrow> spec" where
  "new_Spec i =
     \<lparr>spec_id = i, spec_interactions = [],
      spec_request = \<lparr>url = None, out_method = None, qs = None, out_json = None,
                       out_headers = None, resolveWithFullResponse = False\<rparr>,
      spec_response = None, spec_json = None\<rparr>"

text \<open>The verb builders: each stores the url and its own method name.\<close>

definition verb :: "string \<Rightarrow> string \<Rightarrow> spec \<Rightarrow> spec" where
  "verb name u s = s\<lparr>spec_request := (spec_request s)\<lparr>url := Some u, out_method := Some name\<rparr>\<rparr>"

definition get :: "string \<Rightarrow> spec \<Rightarrow> spec" where
  "get u s = verb ''GET'' u s"

definition head :: "string \<Rightarrow> spec \<Rightarrow> spec" where
  "head u s = verb ''HEAD'' u s"

definition options :: "string \<Rightarrow> spec \<Rightarrow> spec" where
  "options u s = verb ''OPTIONS'' u s"

definition patch :: "string \<Rightarrow> spec \<Rightarrow> spec" where
  "patch u s = verb ''PATCH'' u s"

definition post :: "string \<Rightarrow> spec \<Rightarrow> spec" where
  "post u s = verb ''POST'' u s"

definition put :: "string \<Rightarrow> spec \<Rightarrow> spec" where
  "put u s = verb ''PUT'' u s"

definition delete :: "string \<Rightarrow> spec \<Rightarrow> spec" where
  "delete u s = verb ''DELETE'' u s"

text \<open>
  \<^verbatim>\<open>Spec.fetch()\<close>: the \<^verbatim>\<open>switch\<close> over \<^verbatim>\<open>this._request.method\<close>, with its two cases and
  its default. The result is the client entry point called and the request passed.
\<close>

definition fetch :: "spec \<Rightarrow> rp_call \<times> spec" where
  "fetch s =
     (let r = (spec_request s)\<lparr>resolveWithFullResponse := True\<rparr>;
          s' = s\<lparr>spec_request := r\<rparr>
      in if out_method r = Some ''GET'' then (RpGet r, s')
         else if out_method r = Some ''POST'' then (RpPost r, s')
         else (RpGet r, s'))"

text \<open>
  What \<^verbatim>\<open>toss\<close> needs from outside the class: the network together with whatever runs
  while the call is pending (it may drive the mock server, so it transforms the world),
  \<^verbatim>\<open>helper.getJson\<close>, and \<^verbatim>\<open>Expect.validate\<close> with the expectations the builder stored.
\<close>

record env =
  net :: "rp_call \<Rightarrow> world \<Rightarrow> (rejection + http_response) \<times> world"
  getJson :: "json option \<Rightarrow> json option"
  validate :: "rejection + http_response \<Rightarrow> json option \<Rightarrow> error + unit"

definition log :: "event \<Rightarrow> world \<Rightarrow> world" where
  "log e w = w\<lparr>events := events w @ [e]\<rparr>"

text \<open>
  Modelled from the spec: \<^verbatim>\<open>store.addInteraction\<close> (\<^verbatim>\<open>src/helpers/store.js\<close> is missing).
  Section 6: the history collaborator receives each interaction after execution.
\<close>

definition store_addInteraction :: "addr \<Rightarrow> world \<Rightarrow> world" where
  "store_addInteraction a w = w\<lparr>store := store w @ [a]\<rparr>"

text \<open>
  Modelled from the spec: \<^verbatim>\<open>Expect.validateInteractions\<close> (\<^verbatim>\<open>src/models/expect.js\<close> is
  missing). Section 4.3: every interaction of the invocation must have
  \<^verbatim>\<open>exercised == true\<close>, else an unexercised-interaction error naming the interaction is
  raised.
\<close>

fun validateInteractions :: "(addr \<Rightarrow> interaction) \<Rightarrow> (ident \<times> addr) list \<Rightarrow> error + unit" where
  "validateInteractions h [] = Inr ()"
| "validateInteractions h ((i, a) # rest) =
     (if exercised (h a) then validateInteractions h rest else Inl (UnexercisedInteraction i))"

text \<open>The first loop of \<^verbatim>\<open>toss\<close>.\<close>

definition register_all :: "(ident \<times> addr) list \<Rightarrow> world \<Rightarrow> world" where
  "register_all xs w = fold (\<lambda>(i, a) w. log (ServerAdd i a) (addInteraction i a w)) xs w"

text \<open>The second loop of \<^verbatim>\<open>toss\<close>: history first, then removal, per interaction.\<close>

definition deregister :: "ident \<times> addr \<Rightarrow> world \<Rightarrow> world" where
  "deregister x w =
     (case x of (i, a) \<Rightarrow>
        let w1 = log (StoreAdd a) (store_addInteraction a w);
            p = port (heap w1 a)
        in log (ServerRemove p i) (removeInteraction p i w1))"

definition deregister_all :: "(ident \<times> addr) list \<Rightarrow> world \<Rightarrow> world" where
  "deregister_all xs w = fold deregister xs w"

text \<open>\<^verbatim>\<open>this._response.body\<close>, of a response or of a caught error.\<close>

definition body_of :: "rejection + http_response \<Rightarrow> json option" where
  "body_of r = (case r of Inr resp \<Rightarrow> res_body resp | Inl (Rejection msg b) \<Rightarrow> b)"

text \<open>
  \<^verbatim>\<open>Spec.toss()\<close>. The \<^verbatim>\<open>try\<close>/\<^verbatim>\<open>catch\<close> around the awaited call stores the response in the
  one branch and the caught error in the other. The result is what \<^verbatim>\<open>toss\<close> throws, if
  anything, with the orchestrator and the world as it leaves them.
\<close>

definition toss :: "env \<Rightarrow> spec \<Rightarrow> world \<Rightarrow> (error + unit) \<times> spec \<times> world" where
  "toss ev s w =
     (let w1 = register_all (spec_interactions s) w;
          (call, s1) = fetch s;
          (settled, w2) = net ev call (log (Fetched call) w1);
          s2 = (case settled of
                  Inr resp \<Rightarrow> s1\<lparr>spec_response := Some (Inr resp)\<rparr>
                | Inl err \<Rightarrow> s1\<lparr>spec_response := Some (Inl err)\<rparr>);
          w3 = deregister_all (spec_interactions s2) w2;
          s3 = s2\<lparr>spec_json := getJson ev (body_of settled)\<rparr>;
          w4 = log ValidateInteractions w3
      in case validateInteractions (heap w4) (spec_interactions s3) of
           Inl e \<Rightarrow> (Inl e, s3, w4)
         | Inr u \<Rightarrow> (validate ev settled (spec_json s3), s3, log Validate w4))"

section \<open>Sequences of server operations\<close>

datatype op =
    Start port bool
  | Stop port
  | AddInteraction ident addr
  | RemoveInteraction port ident
  | RemoveInteractions port
  | RemoveAllInteractions
  | Request port request

text \<open>
  A \<^verbatim>\<open>start\<close> that cannot bind leaves the state as it found it. A request leaves the state
  the handler has reached, whether the handler returns or throws.
\<close>

fun step :: "helper \<Rightarrow> framework \<Rightarrow> op \<Rightarrow> world \<Rightarrow> world" where
  "step hp fw (Start p bound) w = (case start p bound w of Inl e \<Rightarrow> w | Inr w' \<Rightarrow> w')"
| "step hp fw (Stop p) w = stop p w"
| "step hp fw (AddInteraction i a) w = addInteraction i a w"
| "step hp fw (RemoveInteraction p i) w = removeInteraction p i w"
| "step hp fw (RemoveInteractions p) w = removeInteractions p w"
| "step hp fw RemoveAllInteractions w = removeAllInteractions w"
| "step hp fw (Request p req) w = snd (snd (dispatch hp fw p req w))"

definition run :: "helper \<Rightarrow> framework \<Rightarrow> op list \<Rightarrow> world \<Rightarrow> world" where
  "run hp fw ops w = fold (step hp fw) ops w"

section \<open>Notions used in the statements\<close>

text \<open>The registry entries a request matches, in registry order.\<close>

definition matching ::
  "helper \<Rightarrow> request \<Rightarrow> (addr \<Rightarrow> interaction) \<Rightarrow> (ident \<times> addr) list \<Rightarrow> (ident \<times> addr) list" where
  "matching hp req h xs = filter (\<lambda>x. matches hp req (h (snd x))) xs"

text \<open>The calls configured by the matching entries, in registry order.\<close>

definition planned ::
  "helper \<Rightarrow> request \<Rightarrow> (addr \<Rightarrow> interaction) \<Rightarrow> (ident \<times> addr) list \<Rightarrow> res_call list" where
  "planned hp req h xs = concat (map (\<lambda>x. respond (h (snd x))) (matching hp req h xs))"

text \<open>Every registry has pairwise different ids.\<close>

definition ids_unique :: "world \<Rightarrow> bool" where
  "ids_unique w \<longleftrightarrow>
     (\<forall>p m. map_of (mockMap w) p = Some m \<longrightarrow> distinct (map fst (interactions m)))"

text \<open>The ids registered for a port (none for a port without an entry).\<close>

definition reg_ids :: "world \<Rightarrow> port \<Rightarrow> ident set" where
  "reg_ids w q =
     (case map_of (mockMap w) q of None \<Rightarrow> {} | Some m \<Rightarrow> fst ` set (interactions m))"

section \<open>Example data\<close>

text \<open>
  Interactions on port 9393: three that a \<^verbatim>\<open>GET /posts/1?a=1&b=2\<close> matches (the second
  constrains the query to \<^verbatim>\<open>a=1\<close>), each with headers and a body of its own, and one for
  \<^verbatim>\<open>POST\<close> that it does not match. The first world registers the first two and the
  \<^verbatim>\<open>POST\<close> one, the second registers the three that match.
\<close>

definition ex_get :: with_request where
  "ex_get = \<lparr>http_method = ''GET'', path = ''/posts/1'', query = None, headers = None, body = None\<rparr>"

definition ex_i0 :: interaction where
  "ex_i0 = new_Interaction ''i0'' 9393 ex_get
     \<lparr>status = 200, resp_headers = Some [(''X-A'', ''1'')], resp_body = Some (JObj [(''id'', JNum 1)])\<rparr>"

definition ex_i1 :: interaction where
  "ex_i1 = new_Interaction ''i1'' 9393 (ex_get\<lparr>query := Some [(''a'', ''1'')]\<rparr>)
     \<lparr>status = 201, resp_headers = Some [(''X-B'', ''2'')], resp_body = Some (JObj [(''id'', JNum 2)])\<rparr>"

definition ex_i2 :: interaction where
  "ex_i2 = new_Interaction ''i2'' 9393 (ex_get\<lparr>http_method := ''POST''\<rparr>)
     \<lparr>status = 500, resp_headers = None, resp_body = None\<rparr>"

definition ex_i3 :: interaction where
  "ex_i3 = new_Interaction ''i3'' 9393 ex_get
     \<lparr>status = 202, resp_headers = Some [(''X-C'', ''3'')], resp_body = Some (JObj [(''id'', JNum 3)])\<rparr>"

definition ex_heap :: "addr \<Rightarrow> interaction" where
  "ex_heap = (\<lambda>a. ex_i2)(0 := ex_i0, 1 := ex_i1, 3 := ex_i3)"

definition ex_mock :: mock where
  "ex_mock = \<lparr>running = True, interactions = [(''i0'', 0), (''i1'', 1), (''i2'', 2)]\<rparr>"

definition ex_world :: world where
  "ex_world = \<lparr>mockMap = [(9393, ex_mock)], heap = ex_heap, store = [], events = []\<rparr>"

definition ex_world3 :: world where
  "ex_world3 =
     \<lparr>mockMap = [(9393, \<lparr>running = True, interactions = [(''i0'', 0), (''i1'', 1), (''i3'', 3)]\<rparr>)],
      heap = ex_heap, store = [], events = []\<rparr>"

definition ex_started :: world where
  "ex_started =
     \<lparr>mockMap = [(9393, \<lparr>running = True, interactions = []\<rparr>)], heap = ex_heap,
      store = [], events = []\<rparr>"

definition ex_req :: request where
  "ex_req =
     \<lparr>req_method = ''GET'', req_path = ''/posts/1'', req_query = [(''a'', ''1''), (''b'', ''2'')],
      req_headers = [(''host'', ''localhost:9393'')], req_body = JObj []\<rparr>"

definition ex_helper :: helper where
  "ex_helper = spec_helper (\<lambda>b d. b = JObj d)"

text \<open>An orchestrator holding the first interaction, about to \<^verbatim>\<open>GET\<close> the mock.\<close>

definition ex_spec :: spec where
  "ex_spec = (get ''http://localhost:9393/posts/1'' (new_Spec ''s0''))\<lparr>spec_interactions := [(''i0'', 0)]\<rparr>"

text \<open>
  A network that delivers the call to the mock on port 9393 and hands back what the
  handler wrote, and one on which every call is refused. The first expects status 200,
  the second expects the call to fail.
\<close>

definition ex_env_up :: env where
  "ex_env_up =
     \<lparr>net = (\<lambda>c w. case dispatch ex_helper express 9393 ex_req w of
                      (e, res, w') \<Rightarrow>
                        (case delivered res fresh of
                           None \<Rightarrow> (Inl (Rejection ''socket hang up'' None), w')
                         | Some resp \<Rightarrow> (Inr resp, w'))),
      getJson = (\<lambda>b. b),
      validate = (\<lambda>r j. case r of
                     Inl e \<Rightarrow> Inl (AssertionError ''status'')
                   | Inr resp \<Rightarrow> if statusCode resp = 200 then Inr () else Inl (AssertionError ''status''))\<rparr>"

definition ex_env_down :: env where
  "ex_env_down =
     \<lparr>net = (\<lambda>c w. (Inl (Rejection ''ECONNREFUSED'' None), w)),
      getJson = (\<lambda>b. b),
      validate = (\<lambda>r j. case r of
                     Inl e \<Rightarrow> Inr ()
                   | Inr resp \<Rightarrow> Inl (AssertionError ''expected the call to fail''))\<rparr>"

section \<open>The request handler: what the loop computes\<close>

lemma matches_upd [simp]:
  "matches hp req ((h(a := (h a)\<lparr>exercised := e\<rparr>)) b) = matches hp req (h b)"
  by (simp add: matches_def)

lemma matching_upd [simp]:
  "matching hp req (h(a := (h a)\<lparr>exercised := e\<rparr>)) xs = matching hp req h xs"
  by (simp add: matching_def del: fun_upd_apply)

lemma respond_upd [simp]:
  "respond ((h(a := (h a)\<lparr>exercised := e\<rparr>)) b) = respond (h b)"
  by (simp add: respond_def)

lemma planned_upd [simp]:
  "planned hp req (h(a := (h a)\<lparr>exercised := e\<rparr>)) xs = planned hp req h xs"
  by (simp add: planned_def del: fun_upd_apply)

lemma matching_Cons:
  "matching hp req h ((i, a) # xs) =
     (if matches hp req (h a) then (i, a) # matching hp req h xs else matching hp req h xs)"
  by (simp add: matching_def)

lemma planned_Cons:
  "planned hp req h ((i, a) # xs) =
     (if matches hp req (h a) then respond (h a) @ planned hp req h xs else planned hp req h xs)"
  by (simp add: planned_def matching_Cons)

text \<open>The calls that have returned are a beginning of the calls asked for.\<close>

lemma issue_prefix:
  "issue fw cs res = (e, res') \<Longrightarrow>
   \<exists>done rest. res' = res @ done \<and> cs = done @ rest \<and> (e = None \<longrightarrow> rest = [])"
proof (induction cs arbitrary: res)
  case Nil
  then show ?case by simp
next
  case (Cons c cs)
  show ?case
  proof (cases "fw res c")
    case None
    with Cons.prems have "issue fw cs (res @ [c]) = (e, res')" by simp
    from Cons.IH [OF this] obtain d rest
      where "res' = (res @ [c]) @ d" "cs = d @ rest" "e = None \<longrightarrow> rest = []" by blast
    then have "res' = res @ (c # d) \<and> c # cs = (c # d) @ rest \<and> (e = None \<longrightarrow> rest = [])"
      by simp
    then show ?thesis by blast
  next
    case (Some x)
    have "res' = res @ [] \<and> c # cs = [] @ (c # cs) \<and> e \<noteq> None"
      using Cons.prems by (auto simp: Some)
    then show ?thesis by blast
  qed
qed

text \<open>
  Whatever the framework does, the calls that have returned when the loop ends are a
  beginning of the calls configured by the matching entries, in registry order.
\<close>

lemma scan_calls:
  "scan hp fw req xs (ex, res, h) = (e, ex', res', h') \<Longrightarrow>
   \<exists>done rest. res' = res @ done \<and> planned hp req h xs = done @ rest"
proof (induction xs arbitrary: ex res h)
  case Nil
  then show ?case by (simp add: planned_def matching_def)
next
  case (Cons x xs)
  obtain i a where x: "x = (i, a)" by (cases x)
  show ?case
  proof (cases "matches hp req (h a)")
    case False
    with Cons.prems have "scan hp fw req xs (ex, res, h) = (e, ex', res', h')"
      by (simp add: x)
    from Cons.IH [OF this] show ?thesis using False by (simp add: x planned_Cons)
  next
    case True
    let ?h = "h(a := (h a)\<lparr>exercised := True\<rparr>)"
    obtain e1 r1 where iss: "issue fw (respond (h a)) res = (e1, r1)"
      by (cases "issue fw (respond (h a)) res")
    from issue_prefix [OF iss] obtain d rest
      where d: "r1 = res @ d" "respond (h a) = d @ rest" "e1 = None \<longrightarrow> rest = []" by blast
    show ?thesis
    proof (cases e1)
      case (Some err)
      with Cons.prems True iss have "res' = r1" by (simp add: x)
      with d have "res' = res @ d \<and> planned hp req h (x # xs) = d @ (rest @ planned hp req h xs)"
        using True by (simp add: x planned_Cons)
      then show ?thesis by blast
    next
      case None
      with Cons.prems True iss have "scan hp fw req xs (True, r1, ?h) = (e, ex', res', h')"
        by (simp add: x)
      from Cons.IH [OF this] obtain d2 rest2
        where "res' = r1 @ d2" "planned hp req ?h xs = d2 @ rest2" by blast
      with d None have "res' = res @ (respond (h a) @ d2)
          \<and> planned hp req h (x # xs) = (respond (h a) @ d2) @ rest2"
        using True by (simp add: x planned_Cons)
      then show ?thesis by blast
    qed
  qed
qed

text \<open>
  An object the loop has changed is a registered one that matches, and the change is
  that \<^verbatim>\<open>exercised\<close> is set.
\<close>

lemma scan_heap:
  "scan hp fw req xs (ex, res, h) = (e, ex', res', h') \<Longrightarrow>
   h' b = h b \<or>
   (h' b = (h b)\<lparr>exercised := True\<rparr> \<and> b \<in> snd ` set xs \<and> matches hp req (h b))"
proof (induction xs arbitrary: ex res h)
  case Nil
  then show ?case by simp
next
  case (Cons x xs)
  obtain i a where x: "x = (i, a)" by (cases x)
  show ?case
  proof (cases "matches hp req (h a)")
    case False
    with Cons.prems have "scan hp fw req xs (ex, res, h) = (e, ex', res', h')"
      by (simp add: x)
    from Cons.IH [OF this] show ?thesis by auto
  next
    case True
    let ?h = "h(a := (h a)\<lparr>exercised := True\<rparr>)"
    obtain e1 r1 where iss: "issue fw (respond (h a)) res = (e1, r1)"
      by (cases "issue fw (respond (h a)) res")
    show ?thesis
    proof (cases e1)
      case (Some err)
      with Cons.prems True iss have "h' = ?h" by (simp add: x)
      then show ?thesis using True by (auto simp: x)
    next
      case None
      with Cons.prems True iss have "scan hp fw req xs (True, r1, ?h) = (e, ex', res', h')"
        by (simp add: x)
      from Cons.IH [OF this]
      have "h' b = ?h b \<or>
          (h' b = (?h b)\<lparr>exercised := True\<rparr> \<and> b \<in> snd ` set xs \<and> matches hp req (?h b))" .
      then show ?thesis using True by (auto simp: x split: if_splits)
    qed
  qed
qed

text \<open>The flag says whether an entry matched, unless a call threw.\<close>

lemma scan_flag:
  "scan hp fw req xs (ex, res, h) = (e, ex', res', h') \<Longrightarrow>
   (matching hp req h xs = [] \<longrightarrow> e = None \<and> ex' = ex \<and> res' = res \<and> h' = h)
   \<and> (matching hp req h xs \<noteq> [] \<longrightarrow> e \<noteq> None \<or> ex')"
proof (induction xs arbitrary: ex res h)
  case Nil
  then show ?case by (simp add: matching_def)
next
  case (Cons x xs)
  obtain i a where x: "x = (i, a)" by (cases x)
  show ?case
  proof (cases "matches hp req (h a)")
    case False
    with Cons.prems have "scan hp fw req xs (ex, res, h) = (e, ex', res', h')"
      by (simp add: x)
    from Cons.IH [OF this] show ?thesis using False by (simp add: x matching_Cons)
  next
    case True
    let ?h = "h(a := (h a)\<lparr>exercised := True\<rparr>)"
    obtain e1 r1 where iss: "issue fw (respond (h a)) res = (e1, r1)"
      by (cases "issue fw (respond (h a)) res")
    show ?thesis
    proof (cases e1)
      case (Some err)
      with Cons.prems True iss have "e = Some err" by (simp add: x)
      then show ?thesis using True by (simp add: x matching_Cons)
    next
      case None
      with Cons.prems True iss have sc: "scan hp fw req xs (True, r1, ?h) = (e, ex', res', h')"
        by (simp add: x)
      have ih: "(matching hp req h xs = [] \<longrightarrow> ex') \<and> (matching hp req h xs \<noteq> [] \<longrightarrow> e \<noteq> None \<or> ex')"
        using Cons.IH [OF sc] by (simp del: fun_upd_apply)
      have "e \<noteq> None \<or> ex'"
        using ih by (cases "matching hp req h xs = []") simp_all
      then show ?thesis using True by (simp add: x matching_Cons)
    qed
  qed
qed

lemma mockMap_dispatch [simp]: "mockMap (snd (snd (dispatch hp fw p req w))) = mockMap w"
  by (simp add: dispatch_def split: option.splits prod.splits)

lemma dispatch_no_match:
  assumes "map_of (mockMap w) p = Some m"
    and "matching hp req (heap w) (interactions m) = []"
  shows "dispatch hp fw p req w = (fst (issue fw not_found []), snd (issue fw not_found []), w)"
proof -
  obtain e ex res h where sc: "scan hp fw req (interactions m) (False, [], heap w) = (e, ex, res, h)"
    by (cases "scan hp fw req (interactions m) (False, [], heap w)")
  from scan_flag [OF sc] assms(2) have "e = None" "\<not> ex" "res = []" "h = heap w" by simp_all
  with sc assms(1) show ?thesis
    by (simp add: dispatch_def split: prod.splits)
qed

lemma dispatch_match:
  assumes "map_of (mockMap w) p = Some m"
    and "matching hp req (heap w) (interactions m) \<noteq> []"
  shows "\<exists>rest. planned hp req (heap w) (interactions m) = fst (snd (dispatch hp fw p req w)) @ rest"
proof -
  obtain e ex res h where sc: "scan hp fw req (interactions m) (False, [], heap w) = (e, ex, res, h)"
    by (cases "scan hp fw req (interactions m) (False, [], heap w)")
  from scan_flag [OF sc] assms(2) have f: "e \<noteq> None \<or> ex" by simp
  from scan_calls [OF sc] obtain rest where r: "planned hp req (heap w) (interactions m) = res @ rest"
    by auto
  from f sc assms(1) have "fst (snd (dispatch hp fw p req w)) = res"
    by (cases e) (auto simp: dispatch_def)
  with r show ?thesis by blast
qed

lemma dispatch_heap:
  assumes "map_of (mockMap w) p = Some m"
  shows "heap (snd (snd (dispatch hp fw p req w))) b = heap w b \<or>
     (heap (snd (snd (dispatch hp fw p req w))) b = (heap w b)\<lparr>exercised := True\<rparr>
      \<and> b \<in> snd ` set (interactions m) \<and> matches hp req (heap w b))"
proof -
  obtain e ex res h where sc: "scan hp fw req (interactions m) (False, [], heap w) = (e, ex, res, h)"
    by (cases "scan hp fw req (interactions m) (False, [], heap w)")
  from sc assms have "heap (snd (snd (dispatch hp fw p req w))) = h"
    by (cases e) (auto simp: dispatch_def split: prod.splits)
  with scan_heap [OF sc, of b] show ?thesis by simp
qed

text \<open>
  C1 fails on the code. Three registered interactions match one request, each with
  headers and a body of its own. Under express the handler sends the response of the
  first match; at the second match it sets \<^verbatim>\<open>exercised\<close> and then \<^verbatim>\<open>res.set\<close> throws, since
  the response has been sent, and the loop ends there: the third match is never marked,
  the only calls that have returned are those of the first match, and what the client
  receives is the response configured by the first match, not by the last.
\<close>

theorem dispatch_three_matches_first_sent_third_unmarked:
  "matches ex_helper ex_req (heap ex_world3 0)
   \<and> matches ex_helper ex_req (heap ex_world3 1)
   \<and> matches ex_helper ex_req (heap ex_world3 3)
   \<and> fst (dispatch ex_helper express 9393 ex_req ex_world3) = Some HeadersSent
   \<and> fst (snd (dispatch ex_helper express 9393 ex_req ex_world3))
       = [ResSet (Some [(''X-A'', ''1'')]), ResStatus 200, ResSend (Some (JObj [(''id'', JNum 1)]))]
   \<and> delivered (fst (snd (dispatch ex_helper express 9393 ex_req ex_world3))) fresh
       = Some \<lparr>statusCode = 200, res_headers = [(''X-A'', ''1'')],
               res_body = Some (JObj [(''id'', JNum 1)])\<rparr>
   \<and> willRespondWith (heap ex_world3 3)
       = \<lparr>status = 202, resp_headers = Some [(''X-C'', ''3'')],
          resp_body = Some (JObj [(''id'', JNum 3)])\<rparr>
   \<and> exercised (heap (snd (snd (dispatch ex_helper express 9393 ex_req ex_world3))) 0)
   \<and> exercised (heap (snd (snd (dispatch ex_helper express 9393 ex_req ex_world3))) 1)
   \<and> \<not> exercised (heap (snd (snd (dispatch ex_helper express 9393 ex_req ex_world3))) 3)"
  by (simp add: dispatch_def ex_world3_def ex_heap_def ex_i0_def ex_i1_def ex_i2_def ex_i3_def
      ex_get_def ex_req_def ex_helper_def spec_helper_def subset_match_def matches_def
      new_Interaction_def respond_def express_def sent_def delivered.simps fresh_def)

lemma subset_match_iff:
  "subset_match actual expected \<longleftrightarrow>
     (\<forall>k v. map_of expected k = Some v \<longrightarrow> map_of actual k = Some v)"
proof
  assume s: "subset_match actual expected"
  show "\<forall>k v. map_of expected k = Some v \<longrightarrow> map_of actual k = Some v"
  proof (intro allI impI)
    fix k v assume e: "map_of expected k = Some v"
    then have "k \<in> set (map fst expected)"
      by (metis map_of_eq_None_iff option.distinct(1) set_map)
    with s have "map_of actual k = map_of expected k"
      by (auto simp: subset_match_def list_all_iff)
    with e show "map_of actual k = Some v" by simp
  qed
next
  assume r: "\<forall>k v. map_of expected k = Some v \<longrightarrow> map_of actual k = Some v"
  have "map_of actual k = map_of expected k" if "k \<in> set (map fst expected)" for k
  proof -
    from that obtain v where "map_of expected k = Some v"
      by (metis map_of_eq_None_iff not_None_eq set_map)
    with r show ?thesis by simp
  qed
  then show "subset_match actual expected"
    by (simp add: subset_match_def list_all_iff)
qed

text \<open>
  C2: an interaction matches a request exactly when its method equals the request's and
  its path equals the request's (equality of strings, so case matters), and each of the
  query, header and body constraints is either not declared or holds; a declared query
  holds when every declared key is present in the request with the declared value, other
  keys of the request being ignored, and a declared header set likewise. The body
  predicate \<open>vb\<close> is left open.
\<close>

theorem matches_iff_all_declared_predicates_hold:
  "matches (spec_helper vb) req i \<longleftrightarrow>
     http_method (withRequest i) = req_method req
   \<and> path (withRequest i) = req_path req
   \<and> (\<forall>q. query (withRequest i) = Some q \<longrightarrow>
        (\<forall>k v. map_of q k = Some v \<longrightarrow> map_of (req_query req) k = Some v))
   \<and> (\<forall>hs. headers (withRequest i) = Some hs \<longrightarrow>
        (\<forall>k v. map_of hs k = Some v \<longrightarrow> map_of (req_headers req) k = Some v))
   \<and> (\<forall>b. body (withRequest i) = Some b \<longrightarrow> vb (req_body req) b)"
  by (simp add: matches_def spec_helper_def subset_match_iff split: option.splits)

theorem matches_iff_all_declared_predicates_hold_witness:
  "matches (spec_helper (\<lambda>b d. b = JObj d)) ex_req ex_i1
   \<and> \<not> matches (spec_helper (\<lambda>b d. b = JObj d)) ex_req ex_i2
   \<and> \<not> matches (spec_helper (\<lambda>b d. b = JObj d)) (ex_req\<lparr>req_method := ''get''\<rparr>) ex_i1
   \<and> \<not> matches (spec_helper (\<lambda>b d. b = JObj d)) (ex_req\<lparr>req_query := [(''b'', ''2'')]\<rparr>) ex_i1"
  using matches_iff_all_declared_predicates_hold [of "\<lambda>b d. b = JObj d" ex_req ex_i1]
    matches_iff_all_declared_predicates_hold [of "\<lambda>b d. b = JObj d" ex_req ex_i2]
    matches_iff_all_declared_predicates_hold [of "\<lambda>b d. b = JObj d" "ex_req\<lparr>req_method := ''get''\<rparr>" ex_i1]
    matches_iff_all_declared_predicates_hold [of "\<lambda>b d. b = JObj d" "ex_req\<lparr>req_query := [(''b'', ''2'')]\<rparr>" ex_i1]
  by (simp add: ex_req_def ex_i1_def ex_i2_def ex_get_def new_Interaction_def)

text \<open>
  C3: for a request dispatched on a port that has an entry, if no registered interaction
  matches, the handler makes exactly the calls \<^verbatim>\<open>res.status(404)\<close> and
  \<^verbatim>\<open>res.send('Interaction Not Found')\<close> on the untouched response and changes nothing else;
  under express both calls return, so the response is status 404 with that body. If some
  registered interaction matches, the calls that have returned are a beginning of the
  calls configured by the matching interactions: the two calls of the not-found branch
  are not made.
\<close>

theorem dispatch_not_found_iff_no_match:
  assumes "map_of (mockMap w) p = Some m"
  shows "((\<forall>x \<in> set (interactions m). \<not> matches hp req (heap w (snd x))) \<longrightarrow>
            dispatch hp fw p req w
              = (fst (issue fw [ResStatus 404, ResSend (Some (JStr ''Interaction Not Found''))] []),
                 snd (issue fw [ResStatus 404, ResSend (Some (JStr ''Interaction Not Found''))] []),
                 w)
            \<and> dispatch hp express p req w
              = (None, [ResStatus 404, ResSend (Some (JStr ''Interaction Not Found''))], w)
            \<and> delivered (fst (snd (dispatch hp express p req w))) fresh
              = Some \<lparr>statusCode = 404, res_headers = [],
                      res_body = Some (JStr ''Interaction Not Found'')\<rparr>)
       \<and> ((\<exists>x \<in> set (interactions m). matches hp req (heap w (snd x))) \<longrightarrow>
            (\<exists>rest. planned hp req (heap w) (interactions m)
                       = fst (snd (dispatch hp fw p req w)) @ rest))"
proof -
  let ?ms = "matching hp req (heap w) (interactions m)"
  have none: "?ms = [] \<longleftrightarrow> (\<forall>x \<in> set (interactions m). \<not> matches hp req (heap w (snd x)))"
    by (simp add: matching_def filter_empty_conv)
  have a: "dispatch hp f p req w = (fst (issue f not_found []), snd (issue f not_found []), w)"
    if "?ms = []" for f
    using assms that by (rule dispatch_no_match)
  have x: "issue express not_found [] = (None, not_found)"
    by (simp add: not_found_def express_def sent_def)
  have d: "delivered not_found fresh
      = Some \<lparr>statusCode = 404, res_headers = [], res_body = Some (JStr ''Interaction Not Found'')\<rparr>"
    by (simp add: not_found_def fresh_def)
  have b: "\<exists>rest. planned hp req (heap w) (interactions m) = fst (snd (dispatch hp fw p req w)) @ rest"
    if "?ms \<noteq> []"
    using assms that by (rule dispatch_match)
  have first: "dispatch hp fw p req w
        = (fst (issue fw [ResStatus 404, ResSend (Some (JStr ''Interaction Not Found''))] []),
           snd (issue fw [ResStatus 404, ResSend (Some (JStr ''Interaction Not Found''))] []), w)
      \<and> dispatch hp express p req w
        = (None, [ResStatus 404, ResSend (Some (JStr ''Interaction Not Found''))], w)
      \<and> delivered (fst (snd (dispatch hp express p req w))) fresh
        = Some \<lparr>statusCode = 404, res_headers = [],
                res_body = Some (JStr ''Interaction Not Found'')\<rparr>"
    if "?ms = []"
    using a [OF that, of fw] a [OF that, of express] x d
    by (simp add: not_found_def)
  show ?thesis
    using first b none by blast
qed

theorem dispatch_not_found_iff_no_match_witness:
  "dispatch ex_helper express 9393 (ex_req\<lparr>req_path := ''/posts/2''\<rparr>) ex_world
     = (None, [ResStatus 404, ResSend (Some (JStr ''Interaction Not Found''))], ex_world)
   \<and> fst (snd (dispatch ex_helper express 9393 ex_req ex_world)) = respond ex_i0
   \<and> (\<exists>rest. respond ex_i0 @ respond ex_i1 = respond ex_i0 @ rest)"
proof -
  have m: "map_of (mockMap ex_world) 9393 = Some ex_mock"
    by (simp add: ex_world_def)
  have no: "\<forall>x \<in> set (interactions ex_mock).
      \<not> matches ex_helper (ex_req\<lparr>req_path := ''/posts/2''\<rparr>) (heap ex_world (snd x))"
    by (simp add: ex_mock_def ex_world_def ex_heap_def ex_i0_def ex_i1_def ex_i2_def ex_get_def
        ex_req_def matches_def new_Interaction_def)
  have yes: "\<exists>x \<in> set (interactions ex_mock). matches ex_helper ex_req (heap ex_world (snd x))"
    by (simp add: ex_mock_def ex_world_def ex_heap_def ex_i0_def ex_get_def
        ex_req_def matches_def new_Interaction_def)
  have pl: "planned ex_helper ex_req (heap ex_world) (interactions ex_mock)
      = respond ex_i0 @ respond ex_i1"
    by (simp add: planned_def matching_def ex_mock_def ex_world_def ex_heap_def ex_i0_def
        ex_i1_def ex_i2_def ex_get_def ex_req_def ex_helper_def spec_helper_def subset_match_def
        matches_def new_Interaction_def)
  have calls: "fst (snd (dispatch ex_helper express 9393 ex_req ex_world)) = respond ex_i0"
    by (simp add: dispatch_def ex_world_def ex_mock_def ex_heap_def ex_i0_def ex_i1_def ex_i2_def
        ex_get_def ex_req_def ex_helper_def spec_helper_def subset_match_def matches_def
        new_Interaction_def respond_def express_def sent_def)
  note t1 = dispatch_not_found_iff_no_match [OF m, of ex_helper "ex_req\<lparr>req_path := ''/posts/2''\<rparr>" express]
  note t2 = dispatch_not_found_iff_no_match [OF m, of ex_helper ex_req express]
  have one: "dispatch ex_helper express 9393 (ex_req\<lparr>req_path := ''/posts/2''\<rparr>) ex_world
     = (None, [ResStatus 404, ResSend (Some (JStr ''Interaction Not Found''))], ex_world)"
    using t1 no by blast
  have "\<exists>rest. planned ex_helper ex_req (heap ex_world) (interactions ex_mock)
      = fst (snd (dispatch ex_helper express 9393 ex_req ex_world)) @ rest"
    using t2 yes by blast
  then have two: "\<exists>rest. respond ex_i0 @ respond ex_i1 = respond ex_i0 @ rest"
    by (simp only: pl calls)
  show ?thesis using one calls two by simp
qed

section \<open>The registry under the server's operations\<close>

text \<open>
  C8: \<^verbatim>\<open>addInteraction(id, interaction)\<close> stores the interaction under \<open>id\<close> in the registry
  of \<^verbatim>\<open>interaction.port\<close> when \<^verbatim>\<open>mockMap\<close> has an entry for that port (one that \<^verbatim>\<open>start\<close>
  created), leaving every other port, every other id of that registry and the objects as
  they were; when \<^verbatim>\<open>mockMap\<close> has no entry for the port the call changes nothing at all.
  The call has no failing branch.
\<close>

theorem addInteraction_inserts_or_drops:
  "(\<forall>m. map_of (mockMap w) (port (heap w a)) = Some m \<longrightarrow>
      map_of (mockMap (addInteraction i a w)) (port (heap w a))
        = Some (m\<lparr>interactions := AList.update i a (interactions m)\<rparr>)
      \<and> map_of (AList.update i a (interactions m)) i = Some a
      \<and> (\<forall>j. j \<noteq> i \<longrightarrow> map_of (AList.update i a (interactions m)) j = map_of (interactions m) j)
      \<and> (\<forall>q. q \<noteq> port (heap w a) \<longrightarrow>
            map_of (mockMap (addInteraction i a w)) q = map_of (mockMap w) q)
      \<and> heap (addInteraction i a w) = heap w)
   \<and> (map_of (mockMap w) (port (heap w a)) = None \<longrightarrow> addInteraction i a w = w)"
  by (simp add: addInteraction_def Let_def update_conv')

theorem addInteraction_inserts_or_drops_witness:
  "map_of (mockMap (addInteraction ''i0'' 0 ex_started)) 9393
     = Some \<lparr>running = True, interactions = [(''i0'', 0)]\<rparr>
   \<and> addInteraction ''i0'' 0 (new_Server ex_heap) = new_Server ex_heap"
proof -
  have p: "port (heap ex_started 0) = 9393" "port (heap (new_Server ex_heap) 0) = 9393"
    by (simp_all add: ex_started_def new_Server_def ex_heap_def ex_i0_def new_Interaction_def)
  have s: "map_of (mockMap ex_started) 9393 = Some \<lparr>running = True, interactions = []\<rparr>"
    by (simp add: ex_started_def)
  have n: "map_of (mockMap (new_Server ex_heap)) 9393 = None"
    by (simp add: new_Server_def)
  show ?thesis
    using addInteraction_inserts_or_drops [of ex_started 0 "''i0''"]
      addInteraction_inserts_or_drops [of "new_Server ex_heap" 0 "''i0''"]
    by (simp add: p s n)
qed

text \<open>
  C10: when the id is already present in the registry of the interaction's port,
  \<^verbatim>\<open>addInteraction\<close> puts the new object in the place of the old one: the id now maps to
  the new object, the ids and their order are what they were, so the registry has the
  size it had, and every other id keeps its object.
\<close>

theorem addInteraction_existing_id_replaces:
  assumes "map_of (mockMap w) (port (heap w a)) = Some m"
    and "i \<in> fst ` set (interactions m)"
  shows "\<exists>m'. map_of (mockMap (addInteraction i a w)) (port (heap w a)) = Some m'
      \<and> interactions m' = AList.update i a (interactions m)
      \<and> map_of (interactions m') i = Some a
      \<and> length (interactions m') = length (interactions m)
      \<and> map fst (interactions m') = map fst (interactions m)
      \<and> (\<forall>j. j \<noteq> i \<longrightarrow> map_of (interactions m') j = map_of (interactions m) j)"
proof -
  let ?m = "m\<lparr>interactions := AList.update i a (interactions m)\<rparr>"
  have "map_of (mockMap (addInteraction i a w)) (port (heap w a)) = Some ?m"
    using assms(1) by (simp add: addInteraction_def Let_def update_conv')
  moreover have keys: "map fst (interactions ?m) = map fst (interactions m)"
    using assms(2) by (simp add: update_keys)
  moreover have "length (interactions ?m) = length (interactions m)"
    using arg_cong [OF keys, of length] by simp
  ultimately show ?thesis by (simp add: update_conv')
qed

theorem addInteraction_existing_id_replaces_witness:
  "\<exists>m'. map_of (mockMap (addInteraction ''i0'' 1 ex_world)) 9393 = Some m'
     \<and> interactions m' = [(''i0'', 1), (''i1'', 1), (''i2'', 2)]
     \<and> length (interactions m') = 3"
proof -
  have p: "port (heap ex_world 1) = 9393"
    by (simp add: ex_world_def ex_heap_def ex_i1_def new_Interaction_def)
  have m: "map_of (mockMap ex_world) (port (heap ex_world 1)) = Some ex_mock"
    by (simp only: p) (simp add: ex_world_def)
  have i: "''i0'' \<in> fst ` set (interactions ex_mock)"
    by (simp add: ex_mock_def)
  from addInteraction_existing_id_replaces [OF m i]
  obtain m' where "map_of (mockMap (addInteraction ''i0'' 1 ex_world)) 9393 = Some m'"
    and "interactions m' = AList.update ''i0'' 1 (interactions ex_mock)"
    and "length (interactions m') = length (interactions ex_mock)"
    unfolding p by blast
  then show ?thesis
    by (simp add: ex_mock_def)
qed

text \<open>
  C5, as far as it holds: \<^verbatim>\<open>stop(p)\<close> leaves every registry and every object as it was and,
  where the port has an entry, leaves it not running; \<^verbatim>\<open>start(p)\<close> on a running port
  changes nothing; \<^verbatim>\<open>start(p)\<close> on a port that is stopped or has no entry, once the listener
  is bound, stores a new entry for the port that is running and whose registry is empty,
  the other ports and the objects being left as they were.
\<close>

theorem stop_keeps_registry_start_resets_unless_running:
  "(\<forall>q. map_option interactions (map_of (mockMap (stop p w)) q)
          = map_option interactions (map_of (mockMap w) q))
   \<and> heap (stop p w) = heap w
   \<and> (\<forall>m. map_of (mockMap w) p = Some m \<longrightarrow>
         map_option running (map_of (mockMap (stop p w)) p) = Some False)
   \<and> (\<forall>m. map_of (mockMap w) p = Some m \<and> running m \<longrightarrow> start p bound w = Inr w)
   \<and> ((\<forall>m. map_of (mockMap w) p = Some m \<longrightarrow> \<not> running m) \<longrightarrow>
        (\<exists>w'. start p True w = Inr w'
           \<and> map_of (mockMap w') p = Some \<lparr>running = True, interactions = []\<rparr>
           \<and> (\<forall>q. q \<noteq> p \<longrightarrow> map_of (mockMap w') q = map_of (mockMap w) q)
           \<and> heap w' = heap w))"
  by (auto simp: stop_def start_def update_conv' split: option.splits)

theorem stop_keeps_registry_start_resets_unless_running_witness:
  "map_option interactions (map_of (mockMap (stop 9393 ex_world)) 9393)
     = Some [(''i0'', 0), (''i1'', 1), (''i2'', 2)]
   \<and> map_option running (map_of (mockMap (stop 9393 ex_world)) 9393) = Some False
   \<and> start 9393 True ex_world = Inr ex_world
   \<and> (\<exists>w'. start 9393 True (stop 9393 ex_world) = Inr w'
         \<and> map_of (mockMap w') 9393 = Some \<lparr>running = True, interactions = []\<rparr>)"
proof -
  have m: "map_of (mockMap ex_world) 9393 = Some ex_mock" "running ex_mock"
    by (simp_all add: ex_world_def ex_mock_def)
  have i: "map_option interactions (map_of (mockMap ex_world) 9393)
      = Some [(''i0'', 0), (''i1'', 1), (''i2'', 2)]"
    by (simp add: ex_world_def ex_mock_def)
  have s: "\<forall>m. map_of (mockMap (stop 9393 ex_world)) 9393 = Some m \<longrightarrow> \<not> running m"
    by (simp add: stop_def ex_world_def ex_mock_def)
  show ?thesis
    using stop_keeps_registry_start_resets_unless_running [of 9393 ex_world True]
      stop_keeps_registry_start_resets_unless_running [of 9393 "stop 9393 ex_world" True]
      m i s
    by metis
qed

text \<open>
  The registry does not survive a stop/start cycle: on a started port holding one
  interaction, \<^verbatim>\<open>stop\<close> keeps the interaction, and the \<^verbatim>\<open>start\<close> that follows leaves the
  port exactly as a first \<^verbatim>\<open>start\<close> leaves it, with an empty registry.
\<close>

theorem start_after_stop_resets_registry:
  "start 9393 True (new_Server ex_heap) = Inr ex_started
   \<and> map_of (mockMap (stop 9393 (addInteraction ''i0'' 0 ex_started))) 9393
       = Some \<lparr>running = False, interactions = [(''i0'', 0)]\<rparr>
   \<and> start 9393 True (stop 9393 (addInteraction ''i0'' 0 ex_started)) = Inr ex_started"
  by (simp add: start_def stop_def addInteraction_def Let_def new_Server_def ex_started_def
      ex_heap_def ex_i0_def new_Interaction_def)

lemma map_of_clear:
  "map_of (map (\<lambda>(p, m). (p, f m)) al) q = map_option f (map_of al q)"
  by (induction al) auto

lemma step_mockMap_Request [simp]: "mockMap (step hp fw (Request p req) w) = mockMap w"
  by simp

lemma step_ids_unique: "ids_unique w \<Longrightarrow> ids_unique (step hp fw x w)"
proof (cases x)
  case (Start p bound)
  assume "ids_unique w"
  then show ?thesis
    by (auto simp: Start ids_unique_def start_def update_conv' split: if_splits)
next
  case (Stop p)
  assume "ids_unique w"
  then show ?thesis
    by (auto simp: Stop ids_unique_def stop_def update_conv' split: option.splits if_splits)
next
  case (AddInteraction i a)
  assume "ids_unique w"
  then show ?thesis
    by (auto simp: AddInteraction ids_unique_def addInteraction_def Let_def update_conv'
        distinct_update split: option.splits if_splits)
next
  case (RemoveInteraction p i)
  assume "ids_unique w"
  then show ?thesis
    by (auto simp: RemoveInteraction ids_unique_def removeInteraction_def update_conv'
        distinct_delete split: option.splits if_splits)
next
  case (RemoveInteractions p)
  assume "ids_unique w"
  then show ?thesis
    by (auto simp: RemoveInteractions ids_unique_def removeInteractions_def update_conv'
        split: option.splits if_splits)
next
  case RemoveAllInteractions
  assume "ids_unique w"
  then show ?thesis
    by (auto simp: RemoveAllInteractions ids_unique_def removeAllInteractions_def map_of_clear)
next
  case (Request p req)
  assume "ids_unique w"
  then show ?thesis
    by (simp add: Request ids_unique_def)
qed

lemma run_ids_unique: "ids_unique w \<Longrightarrow> ids_unique (run hp fw xs w)"
  unfolding run_def by (induction xs arbitrary: w) (simp_all add: step_ids_unique)

lemma new_Server_ids_unique: "ids_unique (new_Server h)"
  by (simp add: ids_unique_def new_Server_def)

text \<open>
  What one operation does to an object: nothing, or it sets \<^verbatim>\<open>exercised\<close>, and then the
  operation is a request that the object, registered on the request's port, matches.
\<close>

lemma step_heap:
  "heap (step hp fw x w) a = heap w a \<or>
   (heap (step hp fw x w) a = (heap w a)\<lparr>exercised := True\<rparr> \<and>
    (\<exists>p req m. x = Request p req \<and> map_of (mockMap w) p = Some m
        \<and> a \<in> snd ` set (interactions m) \<and> matches hp req (heap w a)))"
proof (cases x)
  case (Request p req)
  show ?thesis
  proof (cases "map_of (mockMap w) p")
    case None
    then show ?thesis by (simp add: Request dispatch_def)
  next
    case (Some m)
    from dispatch_heap [OF Some, of hp fw req a] show ?thesis
      using Some by (auto simp: Request)
  qed
qed (auto simp: start_def stop_def addInteraction_def removeInteraction_def
      removeInteractions_def removeAllInteractions_def Let_def split: option.splits)

lemma step_exercised_mono: "exercised (heap w a) \<Longrightarrow> exercised (heap (step hp fw x w) a)"
  using step_heap [of hp fw x w a] by auto

lemma run_exercised_mono: "exercised (heap w a) \<Longrightarrow> exercised (heap (run hp fw xs w) a)"
  unfolding run_def by (induction xs arbitrary: w) (simp_all add: step_exercised_mono)

text \<open>
  C9: after any sequence of server operations on a new server, no registry holds an id
  twice. Over any sequence of operations from any state, an interaction object that is
  exercised stays exercised. An operation that turns \<^verbatim>\<open>exercised\<close> from false to true is a
  request dispatched on a port where the object is registered and which the object
  matches. A newly constructed interaction is not exercised. All of this holds whatever
  the framework does with the calls on the response.
\<close>

theorem registry_ids_unique_exercised_monotonic:
  "(\<forall>p m. map_of (mockMap (run hp fw xs (new_Server h))) p = Some m \<longrightarrow>
       distinct (map fst (interactions m)))
   \<and> (exercised (heap w a) \<longrightarrow> exercised (heap (run hp fw ys w) a))
   \<and> (\<not> exercised (heap w a) \<and> exercised (heap (step hp fw x w) a) \<longrightarrow>
        (\<exists>p req m. x = Request p req \<and> map_of (mockMap w) p = Some m
           \<and> a \<in> snd ` set (interactions m) \<and> matches hp req (heap w a)))
   \<and> \<not> exercised (new_Interaction i q rq rs)"
proof -
  have "ids_unique (run hp fw xs (new_Server h))"
    by (rule run_ids_unique [OF new_Server_ids_unique])
  then have a: "\<forall>p m. map_of (mockMap (run hp fw xs (new_Server h))) p = Some m \<longrightarrow>
      distinct (map fst (interactions m))"
    by (simp add: ids_unique_def)
  have c: "\<not> exercised (heap w a) \<and> exercised (heap (step hp fw x w) a) \<longrightarrow>
        (\<exists>p req m. x = Request p req \<and> map_of (mockMap w) p = Some m
           \<and> a \<in> snd ` set (interactions m) \<and> matches hp req (heap w a))"
    using step_heap [of hp fw x w a] by auto
  show ?thesis using a c by (simp add: run_exercised_mono new_Interaction_def)
qed

theorem registry_ids_unique_exercised_monotonic_witness:
  "map_of (mockMap (run ex_helper express
       [Start 9393 True, AddInteraction ''i0'' 0, AddInteraction ''i0'' 1, AddInteraction ''i1'' 1]
       (new_Server ex_heap))) 9393
     = Some \<lparr>running = True, interactions = [(''i0'', 1), (''i1'', 1)]\<rparr>
   \<and> distinct (map fst [(''i0'', 1::nat), (''i1'', 1)])
   \<and> \<not> exercised (heap ex_world 0)
   \<and> exercised (heap (step ex_helper express (Request 9393 ex_req) ex_world) 0)
   \<and> matches ex_helper ex_req (heap ex_world 0)
   \<and> exercised (heap (run ex_helper express [Stop 9393, Start 9393 True, RemoveAllInteractions]
        (step ex_helper express (Request 9393 ex_req) ex_world)) 0)"
proof -
  let ?xs = "[Start 9393 True, AddInteraction ''i0'' 0, AddInteraction ''i0'' 1, AddInteraction ''i1'' 1]"
  let ?ys = "[Stop 9393, Start 9393 True, RemoveAllInteractions]"
  let ?w = "step ex_helper express (Request 9393 ex_req) ex_world"
  note t = registry_ids_unique_exercised_monotonic
  have e1: "map_of (mockMap (run ex_helper express ?xs (new_Server ex_heap))) 9393
      = Some \<lparr>running = True, interactions = [(''i0'', 1), (''i1'', 1)]\<rparr>"
    by (simp add: run_def start_def addInteraction_def Let_def new_Server_def
        ex_heap_def ex_i0_def ex_i1_def new_Interaction_def)
  have e2: "\<not> exercised (heap ex_world 0)"
    by (simp add: ex_world_def ex_heap_def ex_i0_def new_Interaction_def)
  have e3: "exercised (heap ?w 0)"
    by (simp add: dispatch_def ex_world_def ex_mock_def ex_heap_def ex_i0_def ex_i1_def ex_i2_def
        ex_get_def ex_req_def ex_helper_def spec_helper_def subset_match_def matches_def
        new_Interaction_def respond_def express_def sent_def)
  have d: "distinct (map fst (interactions \<lparr>running = True, interactions = [(''i0'', 1::nat), (''i1'', 1)]\<rparr>))"
    using t [where hp = ex_helper and fw = express and xs = ?xs and h = ex_heap] e1 by blast
  have m: "matches ex_helper ex_req (heap ex_world 0)"
    using t [where hp = ex_helper and fw = express and w = ex_world and a = 0
        and x = "Request 9393 ex_req"] e2 e3
    by blast
  have k: "exercised (heap (run ex_helper express ?ys ?w) 0)"
    using t [where hp = ex_helper and fw = express and w = ?w and a = 0 and ys = ?ys] e3 by blast
  show ?thesis using e1 e2 e3 d m k by simp
qed

section \<open>The orchestrator: dispatching the outbound call\<close>

text \<open>
  C6 fails on the code. \<^verbatim>\<open>fetch\<close> has a case for \<^verbatim>\<open>'GET'\<close> and a case for \<^verbatim>\<open>'POST'\<close> only:
  a request built by \<^verbatim>\<open>head\<close>, \<^verbatim>\<open>options\<close>, \<^verbatim>\<open>patch\<close>, \<^verbatim>\<open>put\<close> or \<^verbatim>\<open>delete\<close> takes the
  default branch and goes out through the client's \<^verbatim>\<open>get\<close> entry point, exactly as a
  request with an unrecognized method does.
\<close>

theorem fetch_only_get_and_post:
  "fst (fetch (get u s)) = RpGet (spec_request (snd (fetch (get u s))))
   \<and> fst (fetch (post u s)) = RpPost (spec_request (snd (fetch (post u s))))
   \<and> fst (fetch (head u s)) = RpGet (spec_request (snd (fetch (head u s))))
   \<and> fst (fetch (options u s)) = RpGet (spec_request (snd (fetch (options u s))))
   \<and> fst (fetch (patch u s)) = RpGet (spec_request (snd (fetch (patch u s))))
   \<and> fst (fetch (put u s)) = RpGet (spec_request (snd (fetch (put u s))))
   \<and> fst (fetch (delete u s)) = RpGet (spec_request (snd (fetch (delete u s))))
   \<and> fst (fetch (verb ''BREW'' u s)) = RpGet (spec_request (snd (fetch (verb ''BREW'' u s))))"
  by (simp add: fetch_def Let_def verb_def get_def post_def head_def options_def patch_def
      put_def delete_def)

section \<open>The orchestrator: the lifecycle of one invocation\<close>

lemma keys_delete: "fst ` set (AList.delete k al) = fst ` set al - {k}"
  by (induction al) auto

lemma reg_ids_removeInteraction:
  "reg_ids (removeInteraction p i w) q = (if q = p then reg_ids w q - {i} else reg_ids w q)"
  by (auto simp: reg_ids_def removeInteraction_def update_conv' keys_delete split: option.splits)

lemma reg_ids_frame [simp]:
  "reg_ids (log e w) = reg_ids w" "reg_ids (store_addInteraction a w) = reg_ids w"
  by (simp_all add: reg_ids_def log_def store_addInteraction_def fun_eq_iff)

lemma heap_frame [simp]:
  "heap (log e w) = heap w" "heap (store_addInteraction a w) = heap w"
  "heap (removeInteraction p i w) = heap w" "heap (addInteraction i a w) = heap w"
  by (simp_all add: log_def store_addInteraction_def removeInteraction_def addInteraction_def
      Let_def split: option.splits)

lemma store_frame [simp]:
  "store (log e w) = store w" "store (store_addInteraction a w) = store w @ [a]"
  "store (removeInteraction p i w) = store w" "store (addInteraction i a w) = store w"
  by (simp_all add: log_def store_addInteraction_def removeInteraction_def addInteraction_def
      Let_def split: option.splits)

lemma events_frame [simp]:
  "events (log e w) = events w @ [e]" "events (store_addInteraction a w) = events w"
  "events (removeInteraction p i w) = events w" "events (addInteraction i a w) = events w"
  by (simp_all add: log_def store_addInteraction_def removeInteraction_def addInteraction_def
      Let_def split: option.splits)

lemma deregister_simps [simp]:
  "heap (deregister (i, a) w) = heap w"
  "store (deregister (i, a) w) = store w @ [a]"
  "events (deregister (i, a) w) = events w @ [StoreAdd a, ServerRemove (port (heap w a)) i]"
  "reg_ids (deregister (i, a) w) q = (if q = port (heap w a) then reg_ids w q - {i} else reg_ids w q)"
  by (simp_all add: deregister_def Let_def reg_ids_removeInteraction)

lemma deregister_all_Cons [simp]:
  "deregister_all [] w = w"
  "deregister_all (x # xs) w = deregister_all xs (deregister x w)"
  by (simp_all add: deregister_all_def)

lemma heap_deregister_all [simp]: "heap (deregister_all xs w) = heap w"
  by (induction xs arbitrary: w) auto

lemma store_deregister_all: "store (deregister_all xs w) = store w @ map snd xs"
  by (induction xs arbitrary: w) auto

lemma events_deregister_all:
  "events (deregister_all xs w) =
     events w @ concat (map (\<lambda>(i, a). [StoreAdd a, ServerRemove (port (heap w a)) i]) xs)"
  by (induction xs arbitrary: w) auto

lemma reg_ids_deregister_all_subset: "reg_ids (deregister_all xs w) q \<subseteq> reg_ids w q"
proof (induction xs arbitrary: w)
  case Nil
  show ?case by simp
next
  case (Cons x xs)
  obtain i a where x: "x = (i, a)" by (cases x)
  have "reg_ids (deregister_all xs (deregister x w)) q \<subseteq> reg_ids (deregister x w) q"
    by (rule Cons.IH)
  also have "\<dots> \<subseteq> reg_ids w q" by (auto simp: x)
  finally show ?case by simp
qed

lemma reg_ids_deregister_all:
  "(i, a) \<in> set xs \<Longrightarrow> i \<notin> reg_ids (deregister_all xs w) (port (heap w a))"
proof (induction xs arbitrary: w)
  case Nil
  then show ?case by simp
next
  case (Cons x xs)
  show ?case
  proof (cases "x = (i, a)")
    case True
    have "i \<notin> reg_ids (deregister (i, a) w) (port (heap w a))" by simp
    then show ?thesis
      using reg_ids_deregister_all_subset [of xs "deregister (i, a) w" "port (heap w a)"]
      by (auto simp: True)
  next
    case False
    with Cons.prems have "(i, a) \<in> set xs" by simp
    then have "i \<notin> reg_ids (deregister_all xs (deregister x w)) (port (heap (deregister x w) a))"
      by (rule Cons.IH)
    then show ?thesis by (cases x) simp
  qed
qed

lemma validateInteractions_ok:
  "validateInteractions h xs = Inr () \<longleftrightarrow> (\<forall>x \<in> set xs. exercised (h (snd x)))"
  by (induction h xs rule: validateInteractions.induct) auto

lemma validateInteractions_fail:
  "validateInteractions h xs = Inl e \<Longrightarrow>
   \<exists>i a. (i, a) \<in> set xs \<and> \<not> exercised (h a) \<and> e = UnexercisedInteraction i"
proof (induction h xs rule: validateInteractions.induct)
  case (1 h)
  then show ?case by simp
next
  case (2 h i a rest)
  show ?case
  proof (cases "exercised (h a)")
    case True
    with 2 obtain j b where "(j, b) \<in> set rest" "\<not> exercised (h b)" "e = UnexercisedInteraction j"
      by auto
    then show ?thesis by auto
  next
    case False
    with 2 show ?thesis by auto
  qed
qed

lemma spec_interactions_fetch [simp]: "spec_interactions (snd (fetch s)) = spec_interactions s"
  by (simp add: fetch_def Let_def)

lemma toss_eq:
  assumes "net ev (fst (fetch s)) (log (Fetched (fst (fetch s))) (register_all (spec_interactions s) w)) = (settled, w2)"
  shows "toss ev s w =
     (case validateInteractions (heap w2) (spec_interactions s) of
        Inl e \<Rightarrow> Inl e
      | Inr u \<Rightarrow> validate ev settled (getJson ev (body_of settled)),
      (snd (fetch s))\<lparr>spec_response := Some settled, spec_json := getJson ev (body_of settled)\<rparr>,
      (case validateInteractions (heap w2) (spec_interactions s) of
        Inl e \<Rightarrow> log ValidateInteractions (deregister_all (spec_interactions s) w2)
      | Inr u \<Rightarrow> log Validate (log ValidateInteractions (deregister_all (spec_interactions s) w2))))"
proof -
  obtain c s1 where f: "fetch s = (c, s1)" by (cases "fetch s")
  have i: "spec_interactions s1 = spec_interactions s"
    using spec_interactions_fetch [of s] by (simp add: f)
  from assms have n: "net ev c (log (Fetched c) (register_all (spec_interactions s) w)) = (settled, w2)"
    by (simp add: f)
  show ?thesis
    by (cases settled) (simp_all add: toss_def f n i split: sum.splits)
qed

text \<open>
  C4: let the awaited call settle, to a response or to an error, leaving the world \<open>w2\<close>.
  From there \<^verbatim>\<open>toss\<close> makes these calls and no others, in this order: for each of its
  interactions in turn the history collaborator and then the removal from the registry
  of the interaction's port; after all of them the check of the exercised flags; and
  after that, only if every flag is set, the expectation engine. The history holds the
  interactions, none of their ids is left in the registry of its port, and the objects are
  untouched. If every interaction is exercised the outcome is the expectation engine's;
  otherwise it is the unexercised-interaction error of an interaction that is not
  exercised.
\<close>

theorem toss_deregisters_then_validates:
  assumes "net ev (fst (fetch s)) (log (Fetched (fst (fetch s))) (register_all (spec_interactions s) w)) = (settled, w2)"
    and "toss ev s w = (outcome, s', w')"
  shows "events w' =
           events w2
           @ concat (map (\<lambda>(i, a). [StoreAdd a, ServerRemove (port (heap w2 a)) i]) (spec_interactions s))
           @ [ValidateInteractions]
           @ (if \<forall>x \<in> set (spec_interactions s). exercised (heap w2 (snd x)) then [Validate] else [])
       \<and> store w' = store w2 @ map snd (spec_interactions s)
       \<and> heap w' = heap w2
       \<and> (\<forall>x \<in> set (spec_interactions s). \<forall>m.
            map_of (mockMap w') (port (heap w2 (snd x))) = Some m \<longrightarrow> fst x \<notin> fst ` set (interactions m))
       \<and> ((\<forall>x \<in> set (spec_interactions s). exercised (heap w2 (snd x))) \<longrightarrow>
            outcome = validate ev settled (getJson ev (body_of settled)))
       \<and> (\<not> (\<forall>x \<in> set (spec_interactions s). exercised (heap w2 (snd x))) \<longrightarrow>
            (\<exists>i a. (i, a) \<in> set (spec_interactions s) \<and> \<not> exercised (heap w2 a)
               \<and> outcome = Inl (UnexercisedInteraction i)))"
proof -
  let ?xs = "spec_interactions s"
  let ?d = "deregister_all ?xs w2"
  note t = toss_eq [OF assms(1)]
  have removed: "\<forall>x \<in> set ?xs. \<forall>m.
      map_of (mockMap ?d) (port (heap w2 (snd x))) = Some m \<longrightarrow> fst x \<notin> fst ` set (interactions m)"
  proof (intro ballI allI impI)
    fix x m assume x: "x \<in> set ?xs" and m: "map_of (mockMap ?d) (port (heap w2 (snd x))) = Some m"
    from x have "(fst x, snd x) \<in> set ?xs" by simp
    then have "fst x \<notin> reg_ids ?d (port (heap w2 (snd x)))" by (rule reg_ids_deregister_all)
    with m show "fst x \<notin> fst ` set (interactions m)" by (simp add: reg_ids_def)
  qed
  have ev: "events (log ValidateInteractions ?d) =
      events w2 @ concat (map (\<lambda>(i, a). [StoreAdd a, ServerRemove (port (heap w2 a)) i]) ?xs)
      @ [ValidateInteractions]"
    by (simp add: events_deregister_all)
  have st: "store ?d = store w2 @ map snd ?xs"
    by (rule store_deregister_all)
  show ?thesis
  proof (cases "validateInteractions (heap w2) ?xs")
    case (Inl e)
    then have no: "\<not> (\<forall>x \<in> set ?xs. exercised (heap w2 (snd x)))"
      using validateInteractions_ok [of "heap w2" ?xs] by simp
    from t assms(2) Inl have w': "w' = log ValidateInteractions ?d" and o: "outcome = Inl e"
      by simp_all
    have mm: "mockMap w' = mockMap ?d" by (simp add: w' log_def)
    have e1: "events w' = events w2
        @ concat (map (\<lambda>(i, a). [StoreAdd a, ServerRemove (port (heap w2 a)) i]) ?xs)
        @ [ValidateInteractions]
        @ (if \<forall>x \<in> set ?xs. exercised (heap w2 (snd x)) then [Validate] else [])"
      using no ev by (simp only: w' if_False append_Nil2)
    have s1: "store w' = store w2 @ map snd ?xs" by (simp add: w' st)
    have h1: "heap w' = heap w2" by (simp add: w')
    have r1: "\<forall>x \<in> set ?xs. \<forall>m.
        map_of (mockMap w') (port (heap w2 (snd x))) = Some m \<longrightarrow> fst x \<notin> fst ` set (interactions m)"
      using removed by (simp only: mm)
    have o1: "\<exists>i a. (i, a) \<in> set ?xs \<and> \<not> exercised (heap w2 a) \<and> outcome = Inl (UnexercisedInteraction i)"
      using validateInteractions_fail [OF Inl] by (simp add: o)
    show ?thesis using e1 s1 h1 r1 o1 no by blast
  next
    case (Inr u)
    then have yes: "\<forall>x \<in> set ?xs. exercised (heap w2 (snd x))"
      using validateInteractions_ok [of "heap w2" ?xs] by simp
    from t assms(2) Inr have w': "w' = log Validate (log ValidateInteractions ?d)"
      and o: "outcome = validate ev settled (getJson ev (body_of settled))"
      by simp_all
    have mm: "mockMap w' = mockMap ?d" by (simp add: w' log_def)
    have "events w' = events (log ValidateInteractions ?d) @ [Validate]" by (simp add: w')
    then have e1: "events w' = events w2
        @ concat (map (\<lambda>(i, a). [StoreAdd a, ServerRemove (port (heap w2 a)) i]) ?xs)
        @ [ValidateInteractions]
        @ (if \<forall>x \<in> set ?xs. exercised (heap w2 (snd x)) then [Validate] else [])"
      using yes by (simp add: ev del: events_frame)
    have s1: "store w' = store w2 @ map snd ?xs" by (simp add: w' st)
    have h1: "heap w' = heap w2" by (simp add: w')
    have r1: "\<forall>x \<in> set ?xs. \<forall>m.
        map_of (mockMap w') (port (heap w2 (snd x))) = Some m \<longrightarrow> fst x \<notin> fst ` set (interactions m)"
      using removed by (simp only: mm)
    show ?thesis using e1 s1 h1 r1 o yes by blast
  qed
qed

theorem toss_deregisters_then_validates_witness:
  "\<exists>s' w'. toss ex_env_up ex_spec ex_started = (Inr (), s', w')
     \<and> events w' =
         [ServerAdd ''i0'' 0, Fetched (fst (fetch ex_spec)),
          StoreAdd 0, ServerRemove 9393 ''i0'', ValidateInteractions, Validate]
     \<and> store w' = [0]
     \<and> map_of (mockMap w') 9393 = Some \<lparr>running = True, interactions = []\<rparr>"
proof -
  let ?w1 = "log (Fetched (fst (fetch ex_spec))) (register_all (spec_interactions ex_spec) ex_started)"
  obtain settled w2 where n: "net ex_env_up (fst (fetch ex_spec)) ?w1 = (settled, w2)"
    by (cases "net ex_env_up (fst (fetch ex_spec)) ?w1")
  obtain outcome s' w' where t: "toss ex_env_up ex_spec ex_started = (outcome, s', w')"
    by (cases "toss ex_env_up ex_spec ex_started")
  have xs: "spec_interactions ex_spec = [(''i0'', 0)]"
    by (simp add: ex_spec_def)
  have w1: "?w1 = \<lparr>mockMap = [(9393, \<lparr>running = True, interactions = [(''i0'', 0)]\<rparr>)],
      heap = ex_heap, store = [], events = [ServerAdd ''i0'' 0, Fetched (fst (fetch ex_spec))]\<rparr>"
    by (simp add: xs register_all_def log_def addInteraction_def Let_def ex_started_def
        ex_heap_def ex_i0_def new_Interaction_def)
  have d: "dispatch ex_helper express 9393 ex_req ?w1 =
      (None, respond ex_i0, ?w1\<lparr>heap := ex_heap(0 := ex_i0\<lparr>exercised := True\<rparr>)\<rparr>)"
    by (simp only: w1)
      (simp add: dispatch_def ex_heap_def ex_i0_def ex_get_def ex_req_def matches_def
        new_Interaction_def respond_def express_def sent_def)
  from n have s: "settled = Inr \<lparr>statusCode = 200, res_headers = [(''X-A'', ''1'')],
        res_body = Some (JObj [(''id'', JNum 1)])\<rparr>"
    and w2: "w2 = ?w1\<lparr>heap := ex_heap(0 := ex_i0\<lparr>exercised := True\<rparr>)\<rparr>"
    by (simp_all add: ex_env_up_def d respond_def fresh_def ex_i0_def new_Interaction_def)
  have h2: "exercised (heap w2 0)" "port (heap w2 0) = 9393"
    "events w2 = [ServerAdd ''i0'' 0, Fetched (fst (fetch ex_spec))]"
    "store w2 = []"
    "mockMap w2 = [(9393, \<lparr>running = True, interactions = [(''i0'', 0)]\<rparr>)]"
    unfolding w2 w1 by (simp_all add: ex_i0_def new_Interaction_def)
  note c = toss_deregisters_then_validates [OF n t]
  have o: "outcome = Inr ()"
    using c h2 by (simp add: xs s ex_env_up_def)
  have e: "events w' = [ServerAdd ''i0'' 0, Fetched (fst (fetch ex_spec)),
      StoreAdd 0, ServerRemove 9393 ''i0'', ValidateInteractions, Validate]"
    using c h2 by (simp add: xs)
  have st: "store w' = [0]"
    using c h2 by (simp add: xs)
  have "toss ex_env_up ex_spec ex_started =
      (Inr (), s', log Validate (log ValidateInteractions (deregister_all [(''i0'', 0)] w2)))"
    using toss_eq [OF n] t h2 o by (simp add: xs)
  with t have "w' = log Validate (log ValidateInteractions (deregister_all [(''i0'', 0)] w2))"
    by simp
  then have mm: "map_of (mockMap w') 9393 = Some \<lparr>running = True, interactions = []\<rparr>"
    using h2 by (simp add: log_def deregister_all_def deregister_def store_addInteraction_def
        removeInteraction_def Let_def)
  show ?thesis using t o e st mm by simp
qed

lemma deregister_all_removed:
  assumes "x \<in> set xs" and "map_of (mockMap (deregister_all xs w)) (port (heap w (snd x))) = Some m"
  shows "fst x \<notin> fst ` set (interactions m)"
proof -
  from assms(1) have "(fst x, snd x) \<in> set xs" by simp
  then have "fst x \<notin> reg_ids (deregister_all xs w) (port (heap w (snd x)))"
    by (rule reg_ids_deregister_all)
  with assms(2) show ?thesis by (simp add: reg_ids_def)
qed

text \<open>
  C7: when the awaited call is rejected with an error, \<^verbatim>\<open>toss\<close> stores the error where the
  response would go and carries on: the interactions go to the history and out of the
  registry of their port, the objects being left as they were, the exercised flags are
  checked, and the outcome is that check's error or else what the expectation engine
  says of the stored error. The rejection itself is not what \<^verbatim>\<open>toss\<close> throws.
\<close>

theorem toss_substitutes_network_error:
  assumes "net ev (fst (fetch s)) (log (Fetched (fst (fetch s))) (register_all (spec_interactions s) w)) = (Inl err, w2)"
    and "toss ev s w = (outcome, s', w')"
  shows "spec_response s' = Some (Inl err)
       \<and> outcome = (case validateInteractions (heap w2) (spec_interactions s) of
                      Inl e \<Rightarrow> Inl e
                    | Inr u \<Rightarrow> validate ev (Inl err) (spec_json s'))
       \<and> store w' = store w2 @ map snd (spec_interactions s)
       \<and> events w' =
           events w2
           @ concat (map (\<lambda>(i, a). [StoreAdd a, ServerRemove (port (heap w2 a)) i]) (spec_interactions s))
           @ [ValidateInteractions]
           @ (case validateInteractions (heap w2) (spec_interactions s) of
                Inl e \<Rightarrow> [] | Inr u \<Rightarrow> [Validate])
       \<and> heap w' = heap w2
       \<and> (\<forall>x \<in> set (spec_interactions s). \<forall>m.
            map_of (mockMap w') (port (heap w2 (snd x))) = Some m \<longrightarrow> fst x \<notin> fst ` set (interactions m))"
proof -
  let ?xs = "spec_interactions s"
  let ?d = "deregister_all ?xs w2"
  note t = toss_eq [OF assms(1)]
  have first: "spec_response s' = Some (Inl err)
       \<and> outcome = (case validateInteractions (heap w2) ?xs of
                      Inl e \<Rightarrow> Inl e
                    | Inr u \<Rightarrow> validate ev (Inl err) (spec_json s'))
       \<and> store w' = store w2 @ map snd ?xs
       \<and> events w' =
           events w2
           @ concat (map (\<lambda>(i, a). [StoreAdd a, ServerRemove (port (heap w2 a)) i]) ?xs)
           @ [ValidateInteractions]
           @ (case validateInteractions (heap w2) ?xs of Inl e \<Rightarrow> [] | Inr u \<Rightarrow> [Validate])"
    using t assms(2)
    by (auto simp: store_deregister_all events_deregister_all split: sum.splits)
  have w': "mockMap w' = mockMap ?d \<and> heap w' = heap w2"
    using t assms(2) by (auto simp: log_def split: sum.splits)
  have removed: "\<forall>x \<in> set ?xs. \<forall>m.
      map_of (mockMap w') (port (heap w2 (snd x))) = Some m \<longrightarrow> fst x \<notin> fst ` set (interactions m)"
    using w' deregister_all_removed [of _ ?xs w2] by auto
  show ?thesis using first w' removed by blast
qed

theorem toss_substitutes_network_error_witness:
  "(\<exists>s' w'. toss ex_env_down ex_spec ex_started = (Inl (UnexercisedInteraction ''i0''), s', w')
      \<and> spec_response s' = Some (Inl (Rejection ''ECONNREFUSED'' None))
      \<and> store w' = [0]
      \<and> events w' =
          [ServerAdd ''i0'' 0, Fetched (fst (fetch ex_spec)),
           StoreAdd 0, ServerRemove 9393 ''i0'', ValidateInteractions]
      \<and> map_of (mockMap w') 9393 = Some \<lparr>running = True, interactions = []\<rparr>)
   \<and> (\<exists>s' w'. toss ex_env_down (ex_spec\<lparr>spec_interactions := []\<rparr>) ex_started = (Inr (), s', w')
      \<and> spec_response s' = Some (Inl (Rejection ''ECONNREFUSED'' None))
      \<and> events w' = [Fetched (fst (fetch ex_spec)), ValidateInteractions, Validate])"
proof -
  let ?r = "Rejection ''ECONNREFUSED'' None"
  have first: "\<exists>s' w'. toss ex_env_down ex_spec ex_started = (Inl (UnexercisedInteraction ''i0''), s', w')
      \<and> spec_response s' = Some (Inl ?r) \<and> store w' = [0]
      \<and> events w' = [ServerAdd ''i0'' 0, Fetched (fst (fetch ex_spec)),
           StoreAdd 0, ServerRemove 9393 ''i0'', ValidateInteractions]
      \<and> map_of (mockMap w') 9393 = Some \<lparr>running = True, interactions = []\<rparr>"
  proof -
    let ?w1 = "log (Fetched (fst (fetch ex_spec))) (register_all (spec_interactions ex_spec) ex_started)"
    have n: "net ex_env_down (fst (fetch ex_spec)) ?w1 = (Inl ?r, ?w1)"
      by (simp add: ex_env_down_def)
    obtain outcome s' w' where t: "toss ex_env_down ex_spec ex_started = (outcome, s', w')"
      by (cases "toss ex_env_down ex_spec ex_started")
    have xs: "spec_interactions ex_spec = [(''i0'', 0)]"
      by (simp add: ex_spec_def)
    have w1: "?w1 = \<lparr>mockMap = [(9393, \<lparr>running = True, interactions = [(''i0'', 0)]\<rparr>)],
        heap = ex_heap, store = [], events = [ServerAdd ''i0'' 0, Fetched (fst (fetch ex_spec))]\<rparr>"
      by (simp add: xs register_all_def log_def addInteraction_def Let_def ex_started_def
          ex_heap_def ex_i0_def new_Interaction_def)
    have h: "\<not> exercised (heap ?w1 0)" "port (heap ?w1 0) = 9393"
      "events ?w1 = [ServerAdd ''i0'' 0, Fetched (fst (fetch ex_spec))]" "store ?w1 = []"
      unfolding w1 by (simp_all add: ex_heap_def ex_i0_def new_Interaction_def)
    note c = toss_substitutes_network_error [OF n t]
    have "outcome = Inl (UnexercisedInteraction ''i0'')"
      using c h(1) by (simp add: xs)
    moreover have "spec_response s' = Some (Inl ?r)"
      using c by simp
    moreover have "store w' = [0]"
      using c h(4) by (simp add: xs)
    moreover have "events w' = [ServerAdd ''i0'' 0, Fetched (fst (fetch ex_spec)),
        StoreAdd 0, ServerRemove 9393 ''i0'', ValidateInteractions]"
      using c h(1,2,3) by (simp add: xs)
    moreover have "map_of (mockMap w') 9393 = Some \<lparr>running = True, interactions = []\<rparr>"
    proof -
      from c h(2) have gone: "\<forall>m. map_of (mockMap w') 9393 = Some m \<longrightarrow> ''i0'' \<notin> fst ` set (interactions m)"
        by (simp add: xs)
      have "toss ex_env_down ex_spec ex_started =
          (outcome, s', log ValidateInteractions (deregister_all [(''i0'', 0)] ?w1))"
        using toss_eq [OF n] t h(1) by (simp add: xs)
      with t have "w' = log ValidateInteractions (deregister_all [(''i0'', 0)] ?w1)" by simp
      then have "\<exists>r. map_of (mockMap w') 9393 = Some \<lparr>running = True, interactions = r\<rparr>
          \<and> set r \<subseteq> {(''i0'', 0)}"
        unfolding w1
        by (auto simp: log_def deregister_all_def deregister_def store_addInteraction_def
            removeInteraction_def Let_def ex_heap_def ex_i0_def new_Interaction_def)
      then obtain r where r: "map_of (mockMap w') 9393 = Some \<lparr>running = True, interactions = r\<rparr>"
        "set r \<subseteq> {(''i0'', 0)}" by blast
      with gone have "''i0'' \<notin> fst ` set r" by simp
      with r(2) have "r = []" by (cases r) auto
      with r(1) show ?thesis by simp
    qed
    ultimately show ?thesis using t by simp
  qed
  have second: "\<exists>s' w'. toss ex_env_down (ex_spec\<lparr>spec_interactions := []\<rparr>) ex_started = (Inr (), s', w')
      \<and> spec_response s' = Some (Inl ?r)
      \<and> events w' = [Fetched (fst (fetch ex_spec)), ValidateInteractions, Validate]"
  proof -
    let ?s = "ex_spec\<lparr>spec_interactions := []\<rparr>"
    let ?w1 = "log (Fetched (fst (fetch ?s))) (register_all (spec_interactions ?s) ex_started)"
    have n: "net ex_env_down (fst (fetch ?s)) ?w1 = (Inl ?r, ?w1)"
      by (simp add: ex_env_down_def)
    obtain outcome s' w' where t: "toss ex_env_down ?s ex_started = (outcome, s', w')"
      by (cases "toss ex_env_down ?s ex_started")
    have f: "fst (fetch ?s) = fst (fetch ex_spec)"
      by (simp add: fetch_def Let_def)
    note c = toss_substitutes_network_error [OF n t]
    have "outcome = Inr ()"
      using c by (simp add: ex_env_down_def)
    moreover have "spec_response s' = Some (Inl ?r)"
      using c by simp
    moreover have "events w' = [Fetched (fst (fetch ex_spec)), ValidateInteractions, Validate]"
      using c by (simp add: register_all_def ex_started_def f)
    ultimately show ?thesis using t by simp
  qed
  show ?thesis using first second by (rule conjI)
qed

end
